theory Spec2Isabelle
  imports Main "HOL-Library.Sublist"
begin

section \<open>JavaScript strings\<close>

text \<open>
  Strings are modelled as \<^typ>\<open>string\<close> and are taken to be ASCII: on ASCII text
  \<open>toLowerCase\<close> changes exactly the letters \<open>A\<close>..\<open>Z\<close>, and the white space removed
  by \<open>trim\<close> is TAB, LF, VT, FF, CR and SPACE.
\<close>

definition is_space :: "char \<Rightarrow> bool" where
  "is_space c = (c \<in> set [CHR 0x09, CHR 0x0A, CHR 0x0B, CHR 0x0C, CHR 0x0D, CHR 0x20])"

definition trim :: "string \<Rightarrow> string" where
  "trim s = rev (dropWhile is_space (rev (dropWhile is_space s)))"

definition lower_char :: "char \<Rightarrow> char" where
  "lower_char c =
     (let n = (of_char c :: nat) in if 65 \<le> n \<and> n \<le> 90 then char_of (n + 32) else c)"

definition toLowerCase :: "string \<Rightarrow> string" where
  "toLowerCase s = map lower_char s"

text \<open>\<open>xs.join(sep)\<close> on an array of strings.\<close>

fun join :: "string \<Rightarrow> string list \<Rightarrow> string" where
  "join sep [] = []"
| "join sep [x] = x"
| "join sep (x # y # ys) = x @ sep @ join sep (y # ys)"

text \<open>
  \<open>s.includes(k)\<close>, and \<open>/k1|k2|...|kn/.test(s)\<close> for a regular expression that is an
  alternation of literal words: some alternative occurs in \<open>s\<close> as a contiguous piece.
\<close>

definition str_includes :: "string \<Rightarrow> string \<Rightarrow> bool" where
  "str_includes s k = sublist k s"

definition re_test :: "string list \<Rightarrow> string \<Rightarrow> bool" where
  "re_test alts s = list_ex (str_includes s) alts"


section \<open>JSON values and records\<close>

text \<open>
  A value obtained from \<open>JSON.parse\<close>. A number is kept as the text that JavaScript's
  number-to-string conversion gives for it (so \<open>String(n)\<close> needs no floating point); an
  object is the list of its own properties in enumeration order. The JavaScript value
  \<open>undefined\<close> (an absent property) is \<open>None\<close> of \<^typ>\<open>'a option\<close>.
\<close>

datatype json =
    JNull
  | JBool bool
  | JNum string
  | JStr string
  | JArr "json list"
  | JObj "(string \<times> json) list"

text \<open>\<open>doc?.key\<close> for the keys the script reads (\<open>name\<close>, \<open>type\<close>, \<open>_id\<close>, \<open>img\<close>):
  only an object has them.\<close>

fun get_prop :: "json \<Rightarrow> string \<Rightarrow> json option" where
  "get_prop (JObj kvs) k = map_of kvs k"
| "get_prop _ k = None"

text \<open>\<open>doc.key = v\<close> on an object: an existing property keeps its place, a new one goes last.\<close>

fun update_prop :: "string \<Rightarrow> json \<Rightarrow> (string \<times> json) list \<Rightarrow> (string \<times> json) list" where
  "update_prop k v [] = [(k, v)]"
| "update_prop k v ((k', v') # kvs) =
     (if k' = k then (k, v) # kvs else (k', v') # update_prop k v kvs)"

fun set_prop :: "json \<Rightarrow> string \<Rightarrow> json \<Rightarrow> json" where
  "set_prop (JObj kvs) k v = JObj (update_prop k v kvs)"
| "set_prop d k v = d"

text \<open>\<open>a ?? b\<close>: the default replaces \<open>undefined\<close> and \<open>null\<close> only.\<close>

fun nullish :: "json option \<Rightarrow> json option \<Rightarrow> json option" where
  "nullish None d = d"
| "nullish (Some JNull) d = d"
| "nullish (Some v) d = Some v"

text \<open>\<open>String(v)\<close>. Inside an array, \<open>null\<close> is rendered as the empty string.\<close>

fun js_String :: "json \<Rightarrow> string" where
  "js_String JNull = ''null''"
| "js_String (JBool b) = (if b then ''true'' else ''false'')"
| "js_String (JNum s) = s"
| "js_String (JStr s) = s"
| "js_String (JArr xs) = join '','' (map (\<lambda>x. if x = JNull then [] else js_String x) xs)"
| "js_String (JObj kvs) = ''[object Object]''"

text \<open>\<open>String(v ?? "")\<close> where \<open>v\<close> may be \<open>undefined\<close>.\<close>

definition string_or_empty :: "json option \<Rightarrow> string" where
  "string_or_empty v = (case nullish v (Some (JStr [])) of Some x \<Rightarrow> js_String x | None \<Rightarrow> [])"

text \<open>Truthiness of a value that may be \<open>undefined\<close>.\<close>

fun truthy :: "json option \<Rightarrow> bool" where
  "truthy None = False"
| "truthy (Some JNull) = False"
| "truthy (Some (JBool b)) = b"
| "truthy (Some (JNum s)) = (s \<noteq> ''0'' \<and> s \<noteq> ''NaN'')"
| "truthy (Some (JStr s)) = (s \<noteq> [])"
| "truthy (Some (JArr xs)) = True"
| "truthy (Some (JObj kvs)) = True"


section \<open>Classifier\<close>

definition isSpell :: "json \<Rightarrow> bool" where
  "isSpell doc = (toLowerCase (string_or_empty (get_prop doc ''type'')) = ''spell'')"

definition isLikelyDoc :: "json \<Rightarrow> bool" where
  "isLikelyDoc doc =
     (case doc of
        JObj kvs \<Rightarrow> (case map_of kvs ''name'' of
                       Some (JStr s) \<Rightarrow> 0 < length (trim s)
                     | _ \<Rightarrow> False)
      | JArr xs \<Rightarrow> False
      | _ \<Rightarrow> False)"

definition known_subtypes :: "string list" where
  "known_subtypes = [''weapon'', ''armor'', ''shield'', ''cloak'', ''robe'', ''boots'',
     ''helm'', ''helmet'', ''ring'', ''amulet'', ''staff'', ''wand'']"

definition detectItemCategory :: "json \<Rightarrow> string" where
  "detectItemCategory doc =
     (let n = toLowerCase (string_or_empty (get_prop doc ''name''));
          t = toLowerCase (string_or_empty (get_prop doc ''type''))
      in if (t \<noteq> [] \<and> t \<noteq> ''spell'') \<and> t \<in> set known_subtypes then t
         else if re_test [''sword'', ''blade'', ''dagger'', ''axe'', ''hammer'', ''mace'',
                   ''spear'', ''bow'', ''crossbow'', ''flail'', ''halberd''] n then ''weapon''
         else if re_test [''shield'', ''buckler''] n then ''shield''
         else if re_test [''armor'', ''breastplate'', ''cuirass'', ''chainmail'', ''mail'',
                   ''plate'', ''hauberk''] n then ''armor''
         else if re_test [''helm'', ''helmet'', ''hood''] n then ''helmet''
         else if re_test [''cloak'', ''cape'', ''mantle''] n then ''cloak''
         else if re_test [''robe'', ''vestment'', ''tunic''] n then ''robe''
         else if re_test [''boots'', ''shoes'', ''greaves''] n then ''boots''
         else if re_test [''gloves'', ''gauntlets''] n then ''gloves''
         else if re_test [''ring''] n then ''ring''
         else if re_test [''amulet'', ''pendant'', ''necklace''] n then ''amulet''
         else if re_test [''staff''] n then ''staff''
         else if re_test [''wand''] n then ''wand''
         else if re_test [''tome'', ''grimoire'', ''book''] n then ''book''
         else if re_test [''scroll''] n then ''scroll''
         else if re_test [''potion'', ''elixir'', ''vial''] n then ''potion''
         else ''item'')"

text \<open>
  The category resolution as the specification words it. Step (a): a type that is present,
  non-empty and one of the known subtypes is used directly. Step (b): otherwise the first
  keyword pattern (in the fixed order) that occurs in the name, letter case ignored,
  decides. Step (c): otherwise the category is \<open>item\<close>.
\<close>

definition keyword_patterns :: "(string list \<times> string) list" where
  "keyword_patterns =
    [([''sword'', ''blade'', ''dagger'', ''axe'', ''hammer'', ''mace'', ''spear'', ''bow'',
       ''crossbow'', ''flail'', ''halberd''], ''weapon''),
     ([''shield'', ''buckler''], ''shield''),
     ([''armor'', ''breastplate'', ''cuirass'', ''chainmail'', ''mail'', ''plate'',
       ''hauberk''], ''armor''),
     ([''helm'', ''helmet'', ''hood''], ''helmet''),
     ([''cloak'', ''cape'', ''mantle''], ''cloak''),
     ([''robe'', ''vestment'', ''tunic''], ''robe''),
     ([''boots'', ''shoes'', ''greaves''], ''boots''),
     ([''gloves'', ''gauntlets''], ''gloves''),
     ([''ring''], ''ring''),
     ([''amulet'', ''pendant'', ''necklace''], ''amulet''),
     ([''staff''], ''staff''),
     ([''wand''], ''wand''),
     ([''tome'', ''grimoire'', ''book''], ''book''),
     ([''scroll''], ''scroll''),
     ([''potion'', ''elixir'', ''vial''], ''potion'')]"

definition category_by_name :: "string \<Rightarrow> string" where
  "category_by_name name =
     (case find (\<lambda>(kws, c). list_ex (\<lambda>k. sublist k (toLowerCase name)) kws) keyword_patterns of
        Some (kws, c) \<Rightarrow> c
      | None \<Rightarrow> ''item'')"

definition spec_category :: "json \<Rightarrow> string" where
  "spec_category doc =
     (case get_prop doc ''type'' of
        Some (JStr ty) \<Rightarrow>
          if ty \<noteq> [] \<and> ty \<in> set known_subtypes then ty
          else category_by_name (string_or_empty (get_prop doc ''name''))
      | _ \<Rightarrow> category_by_name (string_or_empty (get_prop doc ''name'')))"

text \<open>The record with its type replaced by the lower-cased text of the type.\<close>

definition lower_cased_type :: "json \<Rightarrow> json" where
  "lower_cased_type doc =
     set_prop doc ''type'' (JStr (toLowerCase (string_or_empty (get_prop doc ''type''))))"

text \<open>Case-insensitive equality of two strings.\<close>

definition equal_ignoring_case :: "string \<Rightarrow> string \<Rightarrow> bool" where
  "equal_ignoring_case a b = (toLowerCase a = toLowerCase b)"


section \<open>Prompt builder\<close>

datatype error =
    TypeError
  | JsonSyntaxError string
  | ExpectedArray string
  | PackParseFailed string nat string
  | A1111Error nat string
  | A1111NoImages
  | FetchFailed
  | ENOENT string

text \<open>\<open>doc.name.trim()\<close> throws a \<open>TypeError\<close> unless \<open>doc.name\<close> is a string.\<close>

definition buildPrompt :: "json \<Rightarrow> error + string" where
  "buildPrompt doc =
     (case get_prop doc ''name'' of
        Some (JStr s) \<Rightarrow>
          (let name = trim s in
           if isSpell doc then
             Inr (join '', '' [''fantasy spell concept art'',
                    ''single spell icon on parchment background'',
                    ''magical spell: '' @ name,
                    ''clean composition, centered subject'',
                    ''NO TEXT, no letters, no numbers, no watermark, no logo''])
           else
             (let cat = detectItemCategory doc;
                  label = (if cat = ''item'' then ''item'' else cat)
              in Inr (join '', '' [''fantasy '' @ label @ '' concept art'',
                    ''single '' @ label @ '' on parchment background'',
                    name,
                    ''clean composition, centered subject'',
                    ''NO TEXT, no letters, no numbers, no watermark, no logo''])))
      | _ \<Rightarrow> Inl TypeError)"


section \<open>The runtime around the script\<close>

text \<open>
  What the script takes from Node.js and from its surroundings is a parameter of the model:
  \<open>JSON.parse\<close> (\<open>Inl\<close> carries the message of the \<open>SyntaxError\<close>), the SHA-1 hex
  digest, base64 decoding of \<open>Buffer.from\<close>, the value of the \<open>k\<close>-th call of
  \<open>crypto.randomUUID\<close>, and the answer of the image endpoint to the \<open>k\<close>-th request
  (\<open>None\<close> when \<open>fetch\<close> itself fails).
\<close>

text \<open>
  The answer to \<open>fetch\<close>: the \<open>ok\<close> flag, the status, the body as text, and what
  \<open>r.json()\<close> gives: \<open>Inl\<close> the message of a \<open>SyntaxError\<close>, \<open>Inr\<close> the \<open>images\<close>
  array of the body (empty when the body has none).
\<close>

record http_response =
  ok :: bool
  status :: nat
  body_text :: string
  body_images :: "string + string list"

record runtime =
  JSON_parse :: "string \<Rightarrow> string + json"
  sha1_hex :: "string \<Rightarrow> string"
  base64_decode :: "string \<Rightarrow> string"
  randomUUID :: "nat \<Rightarrow> string"
  txt2img :: "nat \<Rightarrow> string \<Rightarrow> http_response option"

text \<open>
  The settings read from the environment. \<open>LIMIT\<close> is \<open>None\<close> when the variable is unset
  (\<open>Infinity\<close>) or not a number (\<open>NaN\<close>): then \<open>processed >= LIMIT\<close> never holds.
\<close>

record config =
  REPO_ROOT :: string
  LIMIT :: "nat option"
  OVERWRITE :: bool
  DRYRUN :: bool


section \<open>\<open>JSON.stringify\<close>\<close>

definition hex_digit :: "nat \<Rightarrow> char" where
  "hex_digit n = ''0123456789abcdef'' ! (n mod 16)"

definition json_escape_char :: "char \<Rightarrow> string" where
  "json_escape_char c =
     (if c = CHR 0x22 then [CHR 0x5C, CHR 0x22]
      else if c = CHR 0x5C then [CHR 0x5C, CHR 0x5C]
      else if c = CHR 0x08 then [CHR 0x5C, CHR ''b'']
      else if c = CHR 0x0C then [CHR 0x5C, CHR ''f'']
      else if c = CHR 0x0A then [CHR 0x5C, CHR ''n'']
      else if c = CHR 0x0D then [CHR 0x5C, CHR ''r'']
      else if c = CHR 0x09 then [CHR 0x5C, CHR ''t'']
      else if (of_char c :: nat) < 32
        then [CHR 0x5C, CHR ''u'', CHR ''0'', CHR ''0'',
              hex_digit (of_char c div 16), hex_digit (of_char c)]
      else [c])"

definition json_quote :: "string \<Rightarrow> string" where
  "json_quote s = [CHR 0x22] @ concat (map json_escape_char s) @ [CHR 0x22]"

fun JSON_stringify :: "json \<Rightarrow> string" where
  "JSON_stringify JNull = ''null''"
| "JSON_stringify (JBool b) = (if b then ''true'' else ''false'')"
| "JSON_stringify (JNum s) = s"
| "JSON_stringify (JStr s) = json_quote s"
| "JSON_stringify (JArr xs) = ''['' @ join '','' (map JSON_stringify xs) @ '']''"
| "JSON_stringify (JObj kvs) =
     ''{'' @ join '','' (map (\<lambda>kv. json_quote (fst kv) @ '':'' @ JSON_stringify (snd kv)) kvs)
       @ ''}''"


section \<open>Icon file names\<close>

text \<open>\<open>.replace(/['"]/g, "")\<close>\<close>

definition strip_quotes :: "string \<Rightarrow> string" where
  "strip_quotes s = filter (\<lambda>c. c \<noteq> CHR 0x27 \<and> c \<noteq> CHR 0x22) s"

definition is_lower_alnum :: "char \<Rightarrow> bool" where
  "is_lower_alnum c =
     (let n = (of_char c :: nat) in (97 \<le> n \<and> n \<le> 122) \<or> (48 \<le> n \<and> n \<le> 57))"

text \<open>\<open>.replace(/[^a-z0-9]+/g, "-")\<close>: every maximal run of other characters becomes one dash.\<close>

function dash_runs :: "string \<Rightarrow> string" where
  "dash_runs [] = []"
| "dash_runs (c # cs) =
     (if is_lower_alnum c then c # dash_runs cs
      else CHR ''-'' # dash_runs (dropWhile (\<lambda>d. \<not> is_lower_alnum d) cs))"
  by pat_completeness auto
termination
  by (relation "measure length") (auto simp: less_Suc_eq_le length_dropWhile_le)

text \<open>\<open>.replace(/-+/g, "-")\<close>\<close>

function squeeze_dashes :: "string \<Rightarrow> string" where
  "squeeze_dashes [] = []"
| "squeeze_dashes (c # cs) =
     (if c = CHR ''-'' then CHR ''-'' # squeeze_dashes (dropWhile (\<lambda>d. d = CHR ''-'') cs)
      else c # squeeze_dashes cs)"
  by pat_completeness auto
termination
  by (relation "measure length") (auto simp: less_Suc_eq_le length_dropWhile_le)

text \<open>\<open>.replace(/^-|-$/g, "")\<close>: one dash off the front, then one off the end of what is left.\<close>

definition strip_edge_dashes :: "string \<Rightarrow> string" where
  "strip_edge_dashes s =
     (let s1 = (case s of [] \<Rightarrow> [] | c # cs \<Rightarrow> if c = CHR ''-'' then cs else s)
      in if s1 \<noteq> [] \<and> last s1 = CHR ''-'' then butlast s1 else s1)"

definition sanitizeFileName :: "json option \<Rightarrow> string" where
  "sanitizeFileName name =
     take 120 (strip_edge_dashes (squeeze_dashes (dash_runs (strip_quotes
       (toLowerCase (trim (string_or_empty name)))))))"

definition shortHash :: "runtime \<Rightarrow> json \<Rightarrow> string" where
  "shortHash R input = take 8 (sha1_hex R (js_String input))"

text \<open>
  \<open>uuid\<close> is what \<open>crypto.randomUUID()\<close> returns if it is called. Reading \<open>doc.name\<close>
  of \<open>null\<close> throws.
\<close>

definition stableIconFileName :: "runtime \<Rightarrow> string \<Rightarrow> json \<Rightarrow> error + string" where
  "stableIconFileName R uuid doc =
     (if doc = JNull then Inl TypeError
      else
        (let base = sanitizeFileName
                      (if truthy (get_prop doc ''name'') then get_prop doc ''name''
                       else Some (JStr ''icon''));
             input = (case nullish (nullish (get_prop doc ''_id'') (get_prop doc ''name''))
                             (Some (JStr uuid)) of
                        Some v \<Rightarrow> v
                      | None \<Rightarrow> JStr uuid);
             suffix = shortHash R input
         in Inr (if base \<noteq> [] then base @ ''-'' @ suffix @ ''.png'' else suffix @ ''.png'')))"

text \<open>
  What \<open>stableIconFileName\<close> hashes for a record with a name: the \<open>_id\<close> when there is
  one (and it is not \<open>null\<close>), the name otherwise (\<open>JNull\<close> stands for neither).
\<close>

definition hashed_identifier :: "json \<Rightarrow> json" where
  "hashed_identifier doc =
     (case nullish (get_prop doc ''_id'') (get_prop doc ''name'') of
        Some v \<Rightarrow> v
      | None \<Rightarrow> JNull)"

definition foundryImgPath :: "string \<Rightarrow> string \<Rightarrow> string \<Rightarrow> string" where
  "foundryImgPath moduleId kind fileName =
     ''modules/'' @ moduleId @ ''/'' @ (''icons/generated/'' @ kind @ ''/'' @ fileName)"

text \<open>\<open>REPO_ROOT\<close> is a resolved absolute path (no trailing slash).\<close>

definition localIconPath :: "config \<Rightarrow> string \<Rightarrow> string \<Rightarrow> string" where
  "localIconPath C kind fileName = REPO_ROOT C @ ''/icons/generated/'' @ kind @ ''/'' @ fileName"


section \<open>Image generator client\<close>

text \<open>\<open>s.split(sep)\<close> for a one-character separator.\<close>

fun split_char :: "char \<Rightarrow> string \<Rightarrow> string list" where
  "split_char sep [] = [[]]"
| "split_char sep (c # cs) =
     (if c = sep then [] # split_char sep cs
      else (case split_char sep cs of
              [] \<Rightarrow> [[c]]
            | l # ls \<Rightarrow> (c # l) # ls))"

text \<open>\<open>s.split(sep, limit)\<close>: at most \<open>limit\<close> pieces are kept.\<close>

definition split_limit :: "char \<Rightarrow> nat \<Rightarrow> string \<Rightarrow> string list" where
  "split_limit sep limit s = take limit (split_char sep s)"

text \<open>\<open>xs[i]\<close>: \<open>undefined\<close> outside the array.\<close>

definition index :: "'a list \<Rightarrow> nat \<Rightarrow> 'a option" where
  "index xs i = (if i < length xs then Some (xs ! i) else None)"

text \<open>
  \<open>k\<close> is the number of requests sent before this one. \<open>Buffer.from(undefined, "base64")\<close>
  throws a \<open>TypeError\<close>.
\<close>

definition generateWithA1111 :: "runtime \<Rightarrow> nat \<Rightarrow> string \<Rightarrow> error + string" where
  "generateWithA1111 R k prompt =
     (case txt2img R k prompt of
        None \<Rightarrow> Inl FetchFailed
      | Some r \<Rightarrow>
          if \<not> ok r then Inl (A1111Error (status r) (body_text r))
          else
            (case body_images r of
               Inl msg \<Rightarrow> Inl (JsonSyntaxError msg)
             | Inr images \<Rightarrow>
                 (case index images 0 of
                    None \<Rightarrow> Inl A1111NoImages
                  | Some b64 \<Rightarrow>
                      if b64 = [] then Inl A1111NoImages
                      else
                        (let clean = (if str_includes b64 '',''
                                      then index (split_limit CHR '','' 1 b64) 1
                                      else Some b64)
                         in case clean of
                              None \<Rightarrow> Inl TypeError
                            | Some c \<Rightarrow> Inr (base64_decode R c)))))"

text \<open>What the specification asks of the client on a successful answer: the part of the
  first image string after its data-URI prefix (after the first comma), decoded.\<close>

definition strip_data_uri_prefix :: "string \<Rightarrow> string" where
  "strip_data_uri_prefix b64 = (if CHR '','' \<in> set b64 then tl (dropWhile (\<lambda>c. c \<noteq> CHR '','') b64) else b64)"


section \<open>The disk\<close>

text \<open>
  The files with their contents, the directories, and the prompts posted to the endpoint
  so far. Disk operations other than reading a missing file are taken to succeed.
\<close>

record world =
  files :: "string \<rightharpoonup> string"
  dirs :: "string set"
  requests :: "string list"

definition exists :: "world \<Rightarrow> string \<Rightarrow> bool" where
  "exists w p = (files w p \<noteq> None \<or> p \<in> dirs w)"

text \<open>The ancestors of a path: its proper prefixes that end before a slash.\<close>

definition ancestors :: "string \<Rightarrow> string list" where
  "ancestors p = map (\<lambda>i. take i p) (filter (\<lambda>i. p ! i = CHR ''/'') [1..<length p])"

definition mkdir_recursive :: "world \<Rightarrow> string \<Rightarrow> world" where
  "mkdir_recursive w p = w\<lparr>dirs := dirs w \<union> set (p # ancestors p)\<rparr>"

definition ensureDir :: "world \<Rightarrow> string \<Rightarrow> world" where
  "ensureDir w p = (if \<not> exists w p then mkdir_recursive w p else w)"

definition readFile :: "world \<Rightarrow> string \<Rightarrow> error + string" where
  "readFile w p = (case files w p of None \<Rightarrow> Inl (ENOENT p) | Some c \<Rightarrow> Inr c)"

definition writeFile :: "world \<Rightarrow> string \<Rightarrow> string \<Rightarrow> world" where
  "writeFile w p c = w\<lparr>files := (files w)(p \<mapsto> c)\<rparr>"

text \<open>\<open>path.dirname\<close> and \<open>path.basename\<close> of a path without a trailing slash.\<close>

definition dirname :: "string \<Rightarrow> string" where
  "dirname p = rev (drop 1 (dropWhile (\<lambda>c. c \<noteq> CHR ''/'') (rev p)))"

definition basename :: "string \<Rightarrow> string" where
  "basename p = rev (takeWhile (\<lambda>c. c \<noteq> CHR ''/'') (rev p))"


section \<open>Pack loader and writer\<close>

datatype pack_format = Array | Ndjson

text \<open>\<open>raw.split(/\r?\n/)\<close>\<close>

fun split_lines :: "string \<Rightarrow> string list" where
  "split_lines [] = [[]]"
| "split_lines (c # cs) =
     (if c = CHR 0x0A then [] # split_lines cs
      else if c = CHR 0x0D \<and> cs \<noteq> [] \<and> hd cs = CHR 0x0A then [] # split_lines (tl cs)
      else (case split_lines cs of
              [] \<Rightarrow> [[c]]
            | l # ls \<Rightarrow> (c # l) # ls))"

text \<open>The \<open>.map((l, idx) => ...)\<close> over the non-empty lines; the first line that does not
  parse throws, with \<open>idx + 1\<close> in the message.\<close>

fun parse_lines :: "runtime \<Rightarrow> string \<Rightarrow> nat \<Rightarrow> string list \<Rightarrow> error + json list" where
  "parse_lines R file idx [] = Inr []"
| "parse_lines R file idx (l # ls) =
     (case JSON_parse R l of
        Inl msg \<Rightarrow> Inl (PackParseFailed file (idx + 1) msg)
      | Inr d \<Rightarrow>
          (case parse_lines R file (idx + 1) ls of
             Inl e \<Rightarrow> Inl e
           | Inr ds \<Rightarrow> Inr (d # ds)))"

text \<open>\<open>loadPackDocs\<close> on the text of the file.\<close>

definition load_text :: "runtime \<Rightarrow> string \<Rightarrow> string \<Rightarrow> error + json list \<times> pack_format" where
  "load_text R packFilePath content =
     (let raw = trim content in
      if raw = [] then Inr ([], Ndjson)
      else if hd raw = CHR ''['' then
        (case JSON_parse R raw of
           Inl msg \<Rightarrow> Inl (JsonSyntaxError msg)
         | Inr (JArr docs) \<Rightarrow> Inr (docs, Array)
         | Inr _ \<Rightarrow> Inl (ExpectedArray packFilePath))
      else
        (case parse_lines R (basename packFilePath) 0
                (filter (\<lambda>l. l \<noteq> []) (map trim (split_lines raw))) of
           Inl e \<Rightarrow> Inl e
         | Inr docs \<Rightarrow> Inr (docs, Ndjson)))"

definition loadPackDocs :: "runtime \<Rightarrow> world \<Rightarrow> string \<Rightarrow> error + json list \<times> pack_format" where
  "loadPackDocs R w packFilePath =
     (case readFile w packFilePath of
        Inl e \<Rightarrow> Inl e
      | Inr content \<Rightarrow> load_text R packFilePath content)"

text \<open>The text that \<open>savePackDocs\<close> writes.\<close>

definition save_text :: "json list \<Rightarrow> pack_format \<Rightarrow> string" where
  "save_text docs format =
     (if format = Array then JSON_stringify (JArr docs) @ [CHR 0x0A]
      else join [CHR 0x0A] (map JSON_stringify docs) @ [CHR 0x0A])"

definition savePackDocs :: "world \<Rightarrow> string \<Rightarrow> json list \<Rightarrow> pack_format \<Rightarrow> world" where
  "savePackDocs w packFilePath docs format = writeFile w packFilePath (save_text docs format)"


section \<open>Orchestration driver\<close>

text \<open>
  The variables of the loop in \<open>processPackFile\<close>, with the disk and the network log. What
  the script prints to the console is left out.
\<close>

record loop_state =
  disk :: world
  docs :: "json list"
  processed :: nat
  changed :: nat

text \<open>\<open>processed >= LIMIT\<close>\<close>

definition limit_reached :: "config \<Rightarrow> nat \<Rightarrow> bool" where
  "limit_reached C n = (case LIMIT C of None \<Rightarrow> False | Some l \<Rightarrow> l \<le> n)"

text \<open>
  One pass through the body of the loop, for index \<open>i\<close>. The second component is the
  exception that ends the run, if one is thrown.
\<close>

definition loop_body ::
  "runtime \<Rightarrow> config \<Rightarrow> string \<Rightarrow> nat \<Rightarrow> loop_state \<Rightarrow> loop_state \<times> error option" where
  "loop_body R C moduleId i st =
     (let doc = docs st ! i in
      if \<not> isLikelyDoc doc then (st, None)
      else
        (let kind = (if isSpell doc then ''spells'' else ''items'') in
         case stableIconFileName R (randomUUID R i) doc of
           Inl e \<Rightarrow> (st, Some e)
         | Inr fileName \<Rightarrow>
             (let iconDiskPath = localIconPath C kind fileName;
                  iconFoundryPath = foundryImgPath moduleId kind fileName;
                  w1 = ensureDir (disk st) (dirname iconDiskPath);
                  alreadyOk = (get_prop doc ''img'' = Some (JStr iconFoundryPath)
                               \<and> exists w1 iconDiskPath)
              in if alreadyOk \<and> \<not> OVERWRITE C
                 then (st\<lparr>disk := w1, processed := processed st + 1\<rparr>, None)
                 else
                   (case buildPrompt doc of
                      Inl e \<Rightarrow> (st\<lparr>disk := w1\<rparr>, Some e)
                    | Inr prompt \<Rightarrow>
                        if \<not> DRYRUN C then
                          (let w2 = w1\<lparr>requests := requests w1 @ [prompt]\<rparr> in
                           case generateWithA1111 R (length (requests w1)) prompt of
                             Inl e \<Rightarrow> (st\<lparr>disk := w2\<rparr>, Some e)
                           | Inr png \<Rightarrow>
                               (st\<lparr>disk := writeFile w2 iconDiskPath png,
                                   docs := (docs st)[i := set_prop doc ''img'' (JStr iconFoundryPath)],
                                   processed := processed st + 1,
                                   changed := changed st + 1\<rparr>, None))
                        else (st\<lparr>disk := w1, processed := processed st + 1\<rparr>, None)))))"

text \<open>\<open>for (let i = 0; i < docs.length; i++) { if (processed >= LIMIT) break; ... }\<close>\<close>

function driver_loop ::
  "runtime \<Rightarrow> config \<Rightarrow> string \<Rightarrow> nat \<Rightarrow> loop_state \<Rightarrow> loop_state \<times> error option" where
  "driver_loop R C moduleId i st =
     (if i < length (docs st) then
        (if limit_reached C (processed st) then (st, None)
         else
           (case loop_body R C moduleId i st of
              (st', Some e) \<Rightarrow> (st', Some e)
            | (st', None) \<Rightarrow> driver_loop R C moduleId (i + 1) st'))
      else (st, None))"
  by pat_completeness auto
termination
  apply (relation "measure (\<lambda>(R, C, moduleId, i, st). length (docs st) - i)")
   apply simp
  apply (auto simp: loop_body_def Let_def split: if_splits sum.splits)
  done

declare driver_loop.simps [simp del]

text \<open>The result that \<open>processPackFile\<close> returns.\<close>

record pack_result =
  r_processed :: nat
  r_changed :: nat
  r_total :: nat

definition processPackFile ::
  "runtime \<Rightarrow> config \<Rightarrow> string \<Rightarrow> world \<Rightarrow> string \<Rightarrow> world \<times> (error + pack_result)" where
  "processPackFile R C moduleId w packFilePath =
     (case loadPackDocs R w packFilePath of
        Inl e \<Rightarrow> (w, Inl e)
      | Inr (ds, format) \<Rightarrow>
          (case driver_loop R C moduleId 0 \<lparr>disk = w, docs = ds, processed = 0, changed = 0\<rparr> of
             (st, Some e) \<Rightarrow> (disk st, Inl e)
           | (st, None) \<Rightarrow>
               ((if \<not> DRYRUN C \<and> 0 < changed st
                 then savePackDocs (disk st) packFilePath (docs st) format
                 else disk st),
                Inr \<lparr>r_processed = processed st, r_changed = changed st,
                     r_total = length (docs st)\<rparr>)))"

text \<open>
  The loop of \<open>main\<close> over the pack files found under \<open>packs/\<close> (given here in the order of
  the listing), with the module identifier read from the manifest. The first exception
  ends the run.
\<close>

fun run_packs ::
  "runtime \<Rightarrow> config \<Rightarrow> string \<Rightarrow> world \<Rightarrow> string list \<Rightarrow> world \<times> error option" where
  "run_packs R C moduleId w [] = (w, None)"
| "run_packs R C moduleId w (pf # pfs) =
     (case processPackFile R C moduleId w pf of
        (w', Inl e) \<Rightarrow> (w', Some e)
      | (w', Inr r) \<Rightarrow> run_packs R C moduleId w' pfs)"


section \<open>Example data\<close>

text \<open>
  A runtime for the worked examples: \<open>JSON.parse\<close>, the SHA-1 digest and the base64
  decoding are tabulated on the texts the examples use (with the values JavaScript gives
  there), and the endpoint answers every request with one image, the byte \<open>A\<close>.
\<close>

definition example_parse :: "string \<Rightarrow> string + json" where
  \<open>example_parse s =
     (case map_of
        [(''{"name":"Sword"}'', JObj [(''name'', JStr ''Sword'')]),
         (''{"name": "Sword"}'', JObj [(''name'', JStr ''Sword'')]),
         (''{"name":"Acid Splash","type":"spell"}'',
            JObj [(''name'', JStr ''Acid Splash''), (''type'', JStr ''spell'')]),
         (''{"name":""}'', JObj [(''name'', JStr [])]),
         (''{}'', JObj []),
         (''null'', JNull),
         (''[{"name":"Sword"}]'', JArr [JObj [(''name'', JStr ''Sword'')]])] s of
        Some v \<Rightarrow> Inr v
      | None \<Rightarrow> Inl ''Unexpected token'')\<close>

definition example_sha1 :: "string \<Rightarrow> string" where
  "example_sha1 s =
     (case map_of
        [(''Sword'', ''4a126f4379eea2328c1eee1d553962ed946ac5bc''),
         (''Acid Splash'', ''e04f5158ef3d17ef705bd0e1993b5609d5cda92e''),
         (''Weapon of the Adept'', ''7575fef6f57c31208504c95ce82579b499386afa''),
         (''abc123'', ''6367c48dd193d56ea7b0baad25b19455e529f5ee'')] s of
        Some h \<Rightarrow> h
      | None \<Rightarrow> replicate 40 CHR ''0'')"

definition example_base64 :: "string \<Rightarrow> string" where
  "example_base64 s = (case map_of [(''QQ=='', ''A'')] s of Some b \<Rightarrow> b | None \<Rightarrow> [])"

definition example_response :: http_response where
  \<open>example_response =
     \<lparr>ok = True, status = 200, body_text = ''{"images":["QQ=="]}'',
      body_images = Inr [''QQ=='']\<rparr>\<close>

definition example_runtime :: runtime where
  "example_runtime =
     \<lparr>JSON_parse = example_parse, sha1_hex = example_sha1, base64_decode = example_base64,
      randomUUID = (\<lambda>k. ''123e4567-e89b-42d3-a456-426614174000''),
      txt2img = (\<lambda>k prompt. Some example_response)\<rparr>"

text \<open>An endpoint that answers with a data-URI prefix before the base64 text.\<close>

definition data_uri_response :: http_response where
  \<open>data_uri_response =
     \<lparr>ok = True, status = 200, body_text = ''{"images":["data:image/png;base64,QQ=="]}'',
      body_images = Inr [''data:image/png;base64,QQ=='']\<rparr>\<close>

definition data_uri_runtime :: runtime where
  "data_uri_runtime = example_runtime\<lparr>txt2img := (\<lambda>k prompt. Some data_uri_response)\<rparr>"

definition sword :: json where
  "sword = JObj [(''name'', JStr ''Sword'')]"

text \<open>A cape whose type is written with a capital letter.\<close>

definition cape_weapon :: json where
  "cape_weapon = JObj [(''name'', JStr ''Old Cape''), (''type'', JStr ''Weapon'')]"

definition adept :: json where
  "adept = JObj [(''name'', JStr ''Weapon of the Adept'')]"

definition example_config :: config where
  "example_config = \<lparr>REPO_ROOT = ''/repo'', LIMIT = None, OVERWRITE = False, DRYRUN = False\<rparr>"


text \<open>Two records with the same name and no \<open>_id\<close>.\<close>

definition sword_weapon :: json where
  "sword_weapon = JObj [(''name'', JStr ''Sword''), (''type'', JStr ''weapon'')]"

definition sword_loot :: json where
  "sword_loot = JObj [(''name'', JStr ''Sword''), (''type'', JStr ''loot'')]"

text \<open>A pack whose second line is blank and whose third line is not JSON.\<close>

definition blank_line_pack :: string where
  "blank_line_pack = ''{}'' @ [CHR 0x0A, CHR 0x0A] @ ''{bad'' @ [CHR 0x0A]"

text \<open>A line-delimited pack with one record, written with a space after the colon.\<close>

definition spaced_pack :: string where
  \<open>spaced_pack = ''{"name": "Sword"}'' @ [CHR 0x0A]\<close>

text \<open>A repository with one pack and no \<open>icons\<close> directory yet.\<close>

definition fresh_world :: "string \<Rightarrow> world" where
  "fresh_world content =
     \<lparr>files = [''/repo/packs/items.db'' \<mapsto> content],
      dirs = {''/repo'', ''/repo/packs''},
      requests = []\<rparr>"

definition canonical_pack :: string where
  \<open>canonical_pack = ''{"name":"Sword"}'' @ [CHR 0x0A]\<close>

definition dryrun_config :: config where
  "dryrun_config = example_config\<lparr>DRYRUN := True\<rparr>"

text \<open>A record whose icon has been generated already, and the disk that holds the icon.\<close>

definition done_sword :: json where
  "done_sword =
     JObj [(''name'', JStr ''Sword''),
           (''img'', JStr ''modules/my-module/icons/generated/items/sword-4a126f43.png'')]"

definition done_state :: loop_state where
  "done_state =
     \<lparr>disk = \<lparr>files = [''/repo/icons/generated/items/sword-4a126f43.png'' \<mapsto> ''A''],
               dirs = {''/repo'', ''/repo/icons'', ''/repo/icons/generated'',
                       ''/repo/icons/generated/items''},
               requests = []\<rparr>,
      docs = [done_sword], processed = 0, changed = 0\<rparr>"



text \<open>The same record in a pack that is a JSON array.\<close>

definition array_pack :: string where
  \<open>array_pack = ''[{"name":"Sword"}]'' @ [CHR 0x0A]\<close>

section \<open>Properties of the classifier and the prompt builder\<close>

lemma known_not_spell: "t \<in> set known_subtypes \<Longrightarrow> t \<noteq> [] \<and> t \<noteq> ''spell''"
  by (auto simp: known_subtypes_def)

lemma toLowerCase_append: "toLowerCase (a @ b) = toLowerCase a @ toLowerCase b"
  by (simp add: toLowerCase_def)

lemma sublist_toLowerCase: "sublist k s \<Longrightarrow> sublist (toLowerCase k) (toLowerCase s)"
  unfolding sublist_def by (metis toLowerCase_append)

lemma sublist_join_middle: "sublist (b @ sep @ c) (join sep [a, b, c, d, e])"
proof -
  have "join sep [a, b, c, d, e] = (a @ sep) @ (b @ sep @ c) @ (sep @ d @ sep @ e)"
    by simp
  then show ?thesis
    unfolding sublist_def by blast
qed

text \<open>
  C7. A record whose \<open>type\<close> is a string is a spell exactly when that string equals
  \<open>spell\<close> up to letter case; a record without a \<open>type\<close> (or with \<open>null\<close>) is not a spell;
  and the answer depends on the \<open>type\<close> field alone, so the name plays no part.
\<close>

theorem spell_kind:
  "(\<forall>ty. get_prop doc ''type'' = Some (JStr ty)
        \<longrightarrow> (isSpell doc \<longleftrightarrow> equal_ignoring_case ty ''spell''))
   \<and> (get_prop doc ''type'' = None \<or> get_prop doc ''type'' = Some JNull \<longrightarrow> \<not> isSpell doc)
   \<and> (\<forall>doc'. get_prop doc' ''type'' = get_prop doc ''type'' \<longrightarrow> isSpell doc' = isSpell doc)"
proof -
  have low: "toLowerCase ''spell'' = ''spell''"
    by code_simp
  have a: "isSpell doc \<longleftrightarrow> equal_ignoring_case ty ''spell''"
    if "get_prop doc ''type'' = Some (JStr ty)" for ty
    using that low by (simp add: isSpell_def equal_ignoring_case_def string_or_empty_def)
  have b: "\<not> isSpell doc"
    if "get_prop doc ''type'' = None \<or> get_prop doc ''type'' = Some JNull"
    using that by (auto simp: isSpell_def string_or_empty_def toLowerCase_def)
  have c: "isSpell doc' = isSpell doc" if "get_prop doc' ''type'' = get_prop doc ''type''" for doc'
    using that by (simp add: isSpell_def)
  from a b c show ?thesis by blast
qed

theorem spell_kind_witness:
  "isSpell (JObj [(''name'', JStr ''Long Sword''), (''type'', JStr ''SpElL'')])
   \<and> \<not> isSpell (JObj [(''name'', JStr ''spell''), (''type'', JStr ''weapon'')])
   \<and> \<not> isSpell (JObj [(''name'', JStr ''spell'')])
   \<and> isSpell (JObj [(''name'', JStr ''Cloak''), (''type'', JStr ''SpElL'')])"
proof -
  let ?d = "JObj [(''name'', JStr ''Long Sword''), (''type'', JStr ''SpElL'')]"
  let ?e = "JObj [(''name'', JStr ''spell''), (''type'', JStr ''weapon'')]"
  let ?f = "JObj [(''name'', JStr ''spell'')]"
  let ?g = "JObj [(''name'', JStr ''Cloak''), (''type'', JStr ''SpElL'')]"
  have eq1: "equal_ignoring_case ''SpElL'' ''spell''"
    by code_simp
  have eq2: "\<not> equal_ignoring_case ''weapon'' ''spell''"
    by code_simp
  have 1: "isSpell ?d"
    using spell_kind [of ?d] eq1 by simp
  have 2: "\<not> isSpell ?e"
    using spell_kind [of ?e] eq2 by simp
  have 3: "\<not> isSpell ?f"
    using spell_kind [of ?f] by simp
  have "get_prop ?g ''type'' = get_prop ?d ''type''"
    by simp
  with spell_kind [of ?d] 1 have 4: "isSpell ?g"
    by blast
  from 1 2 3 4 show ?thesis by blast
qed

lemma detectItemCategory_steps:
  "detectItemCategory doc =
     (let t = toLowerCase (string_or_empty (get_prop doc ''type''))
      in if t \<noteq> [] \<and> t \<in> set known_subtypes then t
         else category_by_name (string_or_empty (get_prop doc ''name'')))"
  unfolding detectItemCategory_def category_by_name_def Let_def keyword_patterns_def
    re_test_def str_includes_def
  using known_not_spell by simp

lemma map_of_update_prop:
  "map_of (update_prop k v kvs) k' = (if k' = k then Some v else map_of kvs k')"
  by (induction kvs) auto

lemma spec_category_lower_cased_type:
  "spec_category (lower_cased_type doc) =
     (let t = toLowerCase (string_or_empty (get_prop doc ''type''))
      in if t \<noteq> [] \<and> t \<in> set known_subtypes then t
         else category_by_name (string_or_empty (get_prop doc ''name'')))"
proof (cases doc)
  case (JObj kvs)
  then show ?thesis
    by (simp add: spec_category_def lower_cased_type_def map_of_update_prop Let_def)
next
  case JNull
  then show ?thesis
    by (simp add: spec_category_def lower_cased_type_def string_or_empty_def toLowerCase_def)
next
  case (JBool b)
  then show ?thesis
    by (simp add: spec_category_def lower_cased_type_def string_or_empty_def toLowerCase_def)
next
  case (JNum x)
  then show ?thesis
    by (simp add: spec_category_def lower_cased_type_def string_or_empty_def toLowerCase_def)
next
  case (JStr x)
  then show ?thesis
    by (simp add: spec_category_def lower_cased_type_def string_or_empty_def toLowerCase_def)
next
  case (JArr xs)
  then show ?thesis
    by (simp add: spec_category_def lower_cased_type_def string_or_empty_def toLowerCase_def)
qed

text \<open>
  C6, as amended. The category that \<open>detectItemCategory\<close> computes is the one that the
  specification's resolution order gives for the record with its type lower-cased: the
  lower-cased type when it is a known subtype, otherwise the category of the first keyword
  pattern that occurs in the lower-cased name, otherwise \<open>item\<close>. For a record whose type
  is absent, \<open>null\<close> or written in lower case it is the category of the specification's
  resolution order itself. In particular a record whose name contains \<open>Sword\<close> and whose
  lower-cased type is not a known subtype has the category \<open>weapon\<close>.
\<close>

theorem category_resolution:
  "detectItemCategory doc = spec_category (lower_cased_type doc)
   \<and> (get_prop doc ''type'' = None \<or> get_prop doc ''type'' = Some JNull
        \<or> (\<exists>ty. get_prop doc ''type'' = Some (JStr ty) \<and> toLowerCase ty = ty)
      \<longrightarrow> detectItemCategory doc = spec_category doc)
   \<and> (\<forall>nm. get_prop doc ''name'' = Some (JStr nm) \<and> sublist ''Sword'' nm \<and>
        toLowerCase (string_or_empty (get_prop doc ''type'')) \<notin> set known_subtypes
      \<longrightarrow> detectItemCategory doc = ''weapon'')"
proof (intro conjI)
  show "detectItemCategory doc = spec_category (lower_cased_type doc)"
    by (simp only: detectItemCategory_steps spec_category_lower_cased_type)
  show "get_prop doc ''type'' = None \<or> get_prop doc ''type'' = Some JNull
        \<or> (\<exists>ty. get_prop doc ''type'' = Some (JStr ty) \<and> toLowerCase ty = ty)
      \<longrightarrow> detectItemCategory doc = spec_category doc"
  proof
    assume "get_prop doc ''type'' = None \<or> get_prop doc ''type'' = Some JNull
        \<or> (\<exists>ty. get_prop doc ''type'' = Some (JStr ty) \<and> toLowerCase ty = ty)"
    then consider "get_prop doc ''type'' = None" | "get_prop doc ''type'' = Some JNull"
      | ty where "get_prop doc ''type'' = Some (JStr ty)" "toLowerCase ty = ty"
      by auto
    then show "detectItemCategory doc = spec_category doc"
    proof cases
      case 1
      then show ?thesis
        by (simp add: detectItemCategory_steps spec_category_def string_or_empty_def
            toLowerCase_def)
    next
      case 2
      then show ?thesis
        by (simp add: detectItemCategory_steps spec_category_def string_or_empty_def
            toLowerCase_def)
    next
      case 3
      then show ?thesis
        by (simp add: detectItemCategory_steps spec_category_def string_or_empty_def)
    qed
  qed
  show "\<forall>nm. get_prop doc ''name'' = Some (JStr nm) \<and> sublist ''Sword'' nm \<and>
      toLowerCase (string_or_empty (get_prop doc ''type'')) \<notin> set known_subtypes
      \<longrightarrow> detectItemCategory doc = ''weapon''"
  proof (intro allI impI, elim conjE)
    fix nm
    assume nm: "get_prop doc ''name'' = Some (JStr nm)" and sw: "sublist ''Sword'' nm"
      and ty: "toLowerCase (string_or_empty (get_prop doc ''type'')) \<notin> set known_subtypes"
    have "toLowerCase ''Sword'' = ''sword''"
      by code_simp
    with sublist_toLowerCase [OF sw] have "sublist ''sword'' (toLowerCase nm)"
      by simp
    moreover have "string_or_empty (get_prop doc ''name'') = nm"
      using nm by (simp add: string_or_empty_def)
    ultimately show "detectItemCategory doc = ''weapon''"
      using ty by (simp add: detectItemCategory_def Let_def re_test_def str_includes_def)
  qed
qed

theorem category_resolution_witness:
  "detectItemCategory cape_weapon = ''weapon''
   \<and> spec_category (lower_cased_type cape_weapon) = ''weapon''
   \<and> detectItemCategory (JObj [(''name'', JStr ''Old Cape''), (''type'', JStr ''loot'')]) = ''cloak''
   \<and> spec_category (JObj [(''name'', JStr ''Old Cape''), (''type'', JStr ''loot'')]) = ''cloak''
   \<and> detectItemCategory (JObj [(''name'', JStr ''Rusty Sword of Doom''), (''type'', JStr ''loot'')])
     = ''weapon''"
proof -
  let ?c = "JObj [(''name'', JStr ''Old Cape''), (''type'', JStr ''loot'')]"
  let ?d = "JObj [(''name'', JStr ''Rusty Sword of Doom''), (''type'', JStr ''loot'')]"
  have w: "spec_category (lower_cased_type cape_weapon) = ''weapon''"
    unfolding cape_weapon_def by code_simp
  with category_resolution [of cape_weapon] have a: "detectItemCategory cape_weapon = ''weapon''"
    by simp
  have "get_prop ?c ''type'' = Some (JStr ''loot'')" and "toLowerCase ''loot'' = ''loot''"
    by code_simp+
  with category_resolution [of ?c] have "detectItemCategory ?c = spec_category ?c"
    by blast
  moreover have c: "spec_category ?c = ''cloak''"
    by code_simp
  ultimately have b: "detectItemCategory ?c = ''cloak''"
    by simp
  have 1: "get_prop ?d ''name'' = Some (JStr ''Rusty Sword of Doom'')"
    by simp
  have 2: "sublist ''Sword'' ''Rusty Sword of Doom''"
    by code_simp
  have 3: "toLowerCase (string_or_empty (get_prop ?d ''type'')) \<notin> set known_subtypes"
    by code_simp
  have d: "detectItemCategory ?d = ''weapon''"
    using category_resolution [of ?d] 1 2 3 by blast
  from a w b c d show ?thesis by blast
qed

text \<open>
  C6 as stated fails: for \<open>{"name":"Old Cape","type":"Weapon"}\<close> the type is not one of
  the known subtypes as written, so the specification's order goes on to the name and gives
  \<open>cloak\<close>; \<open>detectItemCategory\<close> lower-cases the type first and gives \<open>weapon\<close>.
\<close>

theorem category_case_counterexample:
  "detectItemCategory cape_weapon = ''weapon'' \<and> spec_category cape_weapon = ''cloak''"
  unfolding cape_weapon_def by code_simp

text \<open>
  C9, as amended. For a non-spell record with a string name the prompt contains
  \<open>single <category> on parchment background, <name>\<close> with the resolved category and the
  trimmed name. For the record \<open>{"name":"Weapon of the Adept"}\<close> no keyword pattern
  matches (there is no pattern \<open>weapon\<close>), the category is \<open>item\<close>, and the prompt contains
  \<open>single item on parchment background, Weapon of the Adept\<close>.
\<close>

theorem item_prompt:
  "(\<forall>nm. get_prop doc ''name'' = Some (JStr nm) \<and> \<not> isSpell doc
      \<longrightarrow> (\<exists>p. buildPrompt doc = Inr p
             \<and> sublist (''single '' @ detectItemCategory doc @ '' on parchment background, '' @ trim nm) p))
   \<and> detectItemCategory adept = ''item''
   \<and> (\<exists>p. buildPrompt adept = Inr p
          \<and> sublist ''single item on parchment background, Weapon of the Adept'' p)"
proof -
  have gen: "\<exists>p. buildPrompt d = Inr p
             \<and> sublist (''single '' @ detectItemCategory d @ '' on parchment background, '' @ trim nm) p"
    if nm: "get_prop d ''name'' = Some (JStr nm)" and ns: "\<not> isSpell d" for d nm
  proof -
    let ?c = "detectItemCategory d"
    let ?p = "join '', '' [''fantasy '' @ ?c @ '' concept art'',
                    ''single '' @ ?c @ '' on parchment background'',
                    trim nm,
                    ''clean composition, centered subject'',
                    ''NO TEXT, no letters, no numbers, no watermark, no logo'']"
    have "buildPrompt d = Inr ?p"
      using nm ns by (simp add: buildPrompt_def Let_def del: join.simps)
    moreover have "sublist ((''single '' @ ?c @ '' on parchment background'') @ '', '' @ trim nm) ?p"
      by (rule sublist_join_middle)
    ultimately show ?thesis
      by (metis append_assoc append_Cons append_Nil)
  qed
  have cat: "detectItemCategory adept = ''item''"
    unfolding adept_def by code_simp
  have nsp: "\<not> isSpell adept"
    unfolding adept_def by code_simp
  have tr: "trim ''Weapon of the Adept'' = ''Weapon of the Adept''"
    by code_simp
  have "get_prop adept ''name'' = Some (JStr ''Weapon of the Adept'')"
    by (simp add: adept_def)
  from gen [OF this nsp] cat tr
  have "\<exists>p. buildPrompt adept = Inr p
          \<and> sublist ''single item on parchment background, Weapon of the Adept'' p"
    by simp
  with gen cat show ?thesis by blast
qed

theorem item_prompt_witness:
  "\<exists>p. buildPrompt (JObj [(''name'', JStr '' Old Cape ''), (''type'', JStr ''loot'')]) = Inr p
          \<and> sublist ''single cloak on parchment background, Old Cape'' p"
proof -
  let ?d = "JObj [(''name'', JStr '' Old Cape ''), (''type'', JStr ''loot'')]"
  have 1: "get_prop ?d ''name'' = Some (JStr '' Old Cape '')"
    by simp
  have 2: "\<not> isSpell ?d"
    by code_simp
  have 3: "detectItemCategory ?d = ''cloak''"
    by code_simp
  have 4: "trim '' Old Cape '' = ''Old Cape''"
    by code_simp
  from item_prompt [of ?d] 1 2
  have "\<exists>p. buildPrompt ?d = Inr p
     \<and> sublist (''single '' @ detectItemCategory ?d @ '' on parchment background, '' @ trim '' Old Cape '') p"
    by blast
  then show ?thesis
    unfolding 3 4 by simp
qed

text \<open>
  C9 as stated fails: the prompt built for \<open>{"name":"Weapon of the Adept"}\<close> does not
  contain \<open>single weapon on parchment background, Weapon of the Adept\<close>.
\<close>

theorem adept_prompt_counterexample:
  "buildPrompt adept =
     Inr ''fantasy item concept art, single item on parchment background, Weapon of the Adept, clean composition, centered subject, NO TEXT, no letters, no numbers, no watermark, no logo''
   \<and> \<not> sublist ''single weapon on parchment background, Weapon of the Adept''
         ''fantasy item concept art, single item on parchment background, Weapon of the Adept, clean composition, centered subject, NO TEXT, no letters, no numbers, no watermark, no logo''"
  unfolding adept_def by code_simp


section \<open>Properties of the icon file names\<close>

lemma stable_name_shape:
  assumes "get_prop d ''name'' = Some (JStr nm)" "nm \<noteq> []"
  shows "stableIconFileName R u d =
       Inr ((if sanitizeFileName (Some (JStr nm)) \<noteq> []
             then sanitizeFileName (Some (JStr nm)) @ ''-'' else [])
            @ shortHash R (hashed_identifier d) @ ''.png'')"
proof -
  from assms(1) have nn: "d \<noteq> JNull"
    by auto
  show ?thesis
  proof (cases "get_prop d ''_id''")
    case None
    then show ?thesis
      using assms nn by (simp add: stableIconFileName_def Let_def hashed_identifier_def)
  next
    case (Some v)
    then show ?thesis
      using assms nn by (cases v) (simp_all add: stableIconFileName_def Let_def hashed_identifier_def)
  qed
qed

text \<open>
  C8, as amended. For two records with the same non-empty name the file names are equal
  exactly when the short hashes of what is hashed (the \<open>_id\<close>, else the name) are equal,
  whatever \<open>crypto.randomUUID\<close> would return: the file name is a function of the name and
  the \<open>_id\<close>, and same-named records get distinct file names only if their short hashes
  differ.
\<close>

theorem icon_file_name:
  assumes "get_prop d1 ''name'' = Some (JStr nm)" and "get_prop d2 ''name'' = Some (JStr nm)"
    and "nm \<noteq> []"
  shows "stableIconFileName R u1 d1 = stableIconFileName R u2 d2
         \<longleftrightarrow> shortHash R (hashed_identifier d1) = shortHash R (hashed_identifier d2)"
  by (simp add: stable_name_shape [OF assms(1,3)] stable_name_shape [OF assms(2,3)])

theorem icon_file_name_witness:
  "stableIconFileName example_runtime ''u1'' (JObj [(''_id'', JStr ''abc123''), (''name'', JStr ''Sword'')])
     \<noteq> stableIconFileName example_runtime ''u2'' sword
   \<and> stableIconFileName example_runtime ''u1'' sword = stableIconFileName example_runtime ''u2'' sword"
proof -
  let ?d = "JObj [(''_id'', JStr ''abc123''), (''name'', JStr ''Sword'')]"
  have 1: "get_prop ?d ''name'' = Some (JStr ''Sword'')"
    by simp
  have 2: "get_prop sword ''name'' = Some (JStr ''Sword'')"
    by (simp add: sword_def)
  have 3: "''Sword'' \<noteq> []"
    by simp
  have 4: "shortHash example_runtime (hashed_identifier ?d)
             \<noteq> shortHash example_runtime (hashed_identifier sword)"
    by (simp add: shortHash_def hashed_identifier_def example_runtime_def example_sha1_def sword_def)
  from icon_file_name [OF 1 2 3, of example_runtime "''u1''" "''u2''"] 4
    icon_file_name [OF 2 2 3, of example_runtime "''u1''" "''u2''"]
  show ?thesis by simp
qed

text \<open>
  C8 as stated fails: two distinct records named \<open>Sword\<close>, neither with an \<open>_id\<close>, get
  the same file name.
\<close>

theorem same_name_collision_counterexample:
  "sword_weapon \<noteq> sword_loot
   \<and> get_prop sword_weapon ''name'' = Some (JStr ''Sword'')
   \<and> get_prop sword_loot ''name'' = Some (JStr ''Sword'')
   \<and> stableIconFileName example_runtime ''123e4567-e89b-42d3-a456-426614174000'' sword_weapon
       = Inr ''sword-4a126f43.png''
   \<and> stableIconFileName example_runtime ''123e4567-e89b-42d3-a456-426614174000'' sword_loot
       = Inr ''sword-4a126f43.png''"
  unfolding sword_weapon_def sword_loot_def by code_simp


section \<open>Properties of the image generator client\<close>

lemma str_includes_char: "str_includes s [c] \<longleftrightarrow> c \<in> set s"
  by (induction s) (auto simp: str_includes_def sublist_Cons_right)

text \<open>Whatever the endpoint sends, a first image string with a comma makes the client throw.\<close>

lemma data_uri_prefix_throws:
  assumes "txt2img R k prompt = Some r" and "ok r"
    and "body_images r = Inr (b64 # rest)"
    and "CHR '','' \<in> set b64"
  shows "generateWithA1111 R k prompt = Inl TypeError"
proof -
  from assms(4) have "b64 \<noteq> []"
    by auto
  with assms show ?thesis
    by (simp add: generateWithA1111_def Let_def index_def str_includes_char split_limit_def)
qed

text \<open>
  C2. The specification asks for the decoded bytes of the text after the data-URI prefix (here the
  byte \<open>A\<close>); the client throws a \<open>TypeError\<close> instead, because \<open>split(",", 1)\<close> keeps one
  piece only and piece 1 is \<open>undefined\<close>. Without a prefix the same image is decoded.
\<close>

theorem data_uri_response_throws:
  "generateWithA1111 data_uri_runtime 0 ''fantasy item concept art'' = Inl TypeError
   \<and> base64_decode data_uri_runtime (strip_data_uri_prefix ''data:image/png;base64,QQ=='') = ''A''
   \<and> generateWithA1111 example_runtime 0 ''fantasy item concept art'' = Inr ''A''"
  by (simp add: generateWithA1111_def data_uri_runtime_def data_uri_response_def example_runtime_def
      example_response_def example_base64_def strip_data_uri_prefix_def index_def split_limit_def
      str_includes_char Let_def)

section \<open>Properties of the pack loader and writer\<close>

lemma trim_id: "s \<noteq> [] \<Longrightarrow> \<not> is_space (hd s) \<Longrightarrow> \<not> is_space (last s) \<Longrightarrow> trim s = s"
proof -
  assume s: "s \<noteq> []" and h: "\<not> is_space (hd s)" and l: "\<not> is_space (last s)"
  from s h have 1: "dropWhile is_space s = s"
    by (cases s) simp_all
  from s l have 2: "dropWhile is_space (rev s) = rev s"
    by (cases s rule: rev_cases) simp_all
  show ?thesis
    by (simp add: trim_def 1 2)
qed

lemma trim_snoc_lf:
  assumes "s \<noteq> []" "\<not> is_space (hd s)" "\<not> is_space (last s)"
  shows "trim (s @ [CHR 0x0A]) = s"
proof -
  from assms(1,2) have 1: "dropWhile is_space (s @ [CHR 0x0A]) = s @ [CHR 0x0A]"
    by (cases s) simp_all
  from assms(1,3) have 2: "dropWhile is_space (rev s) = rev s"
    by (cases s rule: rev_cases) simp_all
  have 3: "is_space (CHR 0x0A)"
    by (simp add: is_space_def)
  show ?thesis
    by (simp add: trim_def 1 2 3)
qed

lemma split_lines_no_lf: "CHR 0x0A \<notin> set l \<Longrightarrow> split_lines l = [l]"
proof (induction l)
  case Nil
  then show ?case by simp
next
  case (Cons c cs)
  then have "cs \<noteq> [] \<Longrightarrow> hd cs \<noteq> CHR 0x0A"
    by (cases cs) auto
  with Cons show ?case by auto
qed

lemma split_lines_append_lf:
  "CHR 0x0A \<notin> set l \<Longrightarrow> l = [] \<or> last l \<noteq> CHR 0x0D
     \<Longrightarrow> split_lines (l @ CHR 0x0A # rest) = l # split_lines rest"
proof (induction l)
  case Nil
  then show ?case by simp
next
  case (Cons c cs)
  have c: "c \<noteq> CHR 0x0A"
    using Cons.prems(1) by auto
  show ?case
  proof (cases "cs = []")
    case True
    with Cons.prems(2) have "c \<noteq> CHR 0x0D" by simp
    with True c show ?thesis by simp
  next
    case False
    then have "hd (cs @ CHR 0x0A # rest) \<noteq> CHR 0x0A"
      using Cons.prems(1) by (cases cs) auto
    moreover have "split_lines (cs @ CHR 0x0A # rest) = cs # split_lines rest"
      using Cons False by auto
    ultimately show ?thesis
      using c by simp
  qed
qed

lemma split_lines_join:
  "ls \<noteq> [] \<Longrightarrow> \<forall>l\<in>set ls. CHR 0x0A \<notin> set l \<and> (l = [] \<or> last l \<noteq> CHR 0x0D)
     \<Longrightarrow> split_lines (join [CHR 0x0A] ls) = ls"
proof (induction "[CHR 0x0A]" ls rule: join.induct)
  case 1
  then show ?case by simp
next
  case (2 x)
  then show ?case by (simp add: split_lines_no_lf)
next
  case (3 x y ys)
  then show ?case by (simp add: split_lines_append_lf)
qed

lemma hd_join: "ls \<noteq> [] \<Longrightarrow> hd ls \<noteq> [] \<Longrightarrow> hd (join sep ls) = hd (hd ls)"
  by (induction sep ls rule: join.induct) auto

lemma join_nonempty_last: "ls \<noteq> [] \<Longrightarrow> last ls \<noteq> [] \<Longrightarrow> join sep ls \<noteq> []"
  by (induction sep ls rule: join.induct) auto

lemma last_join: "ls \<noteq> [] \<Longrightarrow> last ls \<noteq> [] \<Longrightarrow> last (join sep ls) = last (last ls)"
proof (induction sep ls rule: join.induct)
  case (3 sep x y ys)
  then have "join sep (y # ys) \<noteq> []"
    using join_nonempty_last [of "y # ys" sep] by simp
  with 3 show ?case by simp
qed simp_all

lemma join_nonempty: "ls \<noteq> [] \<Longrightarrow> hd ls \<noteq> [] \<Longrightarrow> join sep ls \<noteq> []"
  by (induction sep ls rule: join.induct) auto

lemma parse_lines_stringify:
  "\<forall>d\<in>set ds. JSON_parse R (JSON_stringify d) = Inr d
     \<Longrightarrow> parse_lines R f idx (map JSON_stringify ds) = Inr ds"
  by (induction ds arbitrary: idx) auto

lemma stringify_object_shape:
  "JSON_stringify (JObj kvs) \<noteq> [] \<and> hd (JSON_stringify (JObj kvs)) = CHR ''{''
     \<and> last (JSON_stringify (JObj kvs)) = CHR ''}''"
  by simp

text \<open>
  Loading the text that the writer produces gives back the records and the format, when the
  records are objects and \<open>JSON.parse\<close> inverts \<open>JSON.stringify\<close> on them.
\<close>

lemma load_save_canonical:
  assumes rec: "format = Ndjson \<longrightarrow> (\<forall>d\<in>set ds. \<exists>kvs. d = JObj kvs)"
    and nolf: "format = Ndjson \<longrightarrow> (\<forall>d\<in>set ds. CHR 0x0A \<notin> set (JSON_stringify d))"
    and inv: "format = Ndjson \<longrightarrow> (\<forall>d\<in>set ds. JSON_parse R (JSON_stringify d) = Inr d)"
    and inv_arr: "format = Array \<longrightarrow> JSON_parse R (JSON_stringify (JArr ds)) = Inr (JArr ds)"
  shows "load_text R path (save_text ds format) = Inr (ds, format)
         \<and> (case load_text R path (save_text ds format) of
               Inr (ds', format') \<Rightarrow> save_text ds' format' = save_text ds format
             | Inl e \<Rightarrow> False)"
proof -
  have sp: "\<not> is_space (CHR ''{'')" "\<not> is_space (CHR ''}'')" "\<not> is_space (CHR ''['')"
    "\<not> is_space (CHR '']'')"
    by (simp_all add: is_space_def)
  have "load_text R path (save_text ds format) = Inr (ds, format)"
  proof (cases format)
    case Array
    let ?s = "JSON_stringify (JArr ds)"
    have "trim (?s @ [CHR 0x0A]) = ?s"
      by (rule trim_snoc_lf) (simp_all add: sp)
    moreover have "hd ?s = CHR ''[''" and "?s \<noteq> []"
      by simp_all
    ultimately show ?thesis
      using Array inv_arr by (simp add: load_text_def save_text_def Let_def del: JSON_stringify.simps)
  next
    case Ndjson
    let ?ls = "map JSON_stringify ds"
    show ?thesis
    proof (cases "ds = []")
      case True
      have "trim [CHR 0x0A] = []"
        by (simp add: trim_def is_space_def)
      with True Ndjson show ?thesis
        by (simp add: load_text_def save_text_def)
    next
      case False
      have shape: "l \<noteq> [] \<and> hd l = CHR ''{'' \<and> last l = CHR ''}'' \<and> CHR 0x0A \<notin> set l"
        if "l \<in> set ?ls" for l
      proof -
        from that obtain d where d: "d \<in> set ds" "l = JSON_stringify d"
          by auto
        with rec Ndjson obtain kvs where "d = JObj kvs"
          by blast
        with d nolf Ndjson show ?thesis
          by (metis stringify_object_shape)
      qed
      have ne: "?ls \<noteq> []"
        using False by simp
      then have hdl: "hd ?ls \<in> set ?ls" and lastl: "last ?ls \<in> set ?ls"
        by (simp_all del: set_map)
      let ?raw = "join [CHR 0x0A] ?ls"
      have raw_ne: "?raw \<noteq> []"
        using join_nonempty [OF ne] shape [OF hdl] by simp
      have raw_hd: "hd ?raw = CHR ''{''"
        using hd_join [OF ne] shape [OF hdl] by simp
      have raw_last: "last ?raw = CHR ''}''"
        using last_join [OF ne] shape [OF lastl] by simp
      have tr: "trim (?raw @ [CHR 0x0A]) = ?raw"
        using raw_ne raw_hd raw_last by (intro trim_snoc_lf) (simp_all add: sp)
      have sl: "split_lines ?raw = ?ls"
        using shape by (intro split_lines_join [OF ne]) auto
      have "trim l = l" if "l \<in> set ?ls" for l
        using shape [OF that] by (intro trim_id) (simp_all add: sp)
      then have mt: "map trim ?ls = ?ls"
        by (intro map_idI) blast
      have fl: "filter (\<lambda>l. l \<noteq> []) ?ls = ?ls"
        unfolding filter_id_conv using shape by blast
      have pl: "parse_lines R (basename path) 0 ?ls = Inr ds"
        using inv Ndjson by (intro parse_lines_stringify) simp
      show ?thesis
        using Ndjson raw_ne raw_hd
        by (simp add: load_text_def save_text_def Let_def tr sl mt fl pl del: set_map map_map)
    qed
  qed
  then show ?thesis by simp
qed

text \<open>
  C1, as amended. A data file that is already in the writer's form (for a line-delimited
  file: one compact JSON object per line, each line ended by a line feed; for an array
  file: the compact JSON array and one line feed) is loaded as its records in that format,
  and saving them again leaves every file on the disk as it was.
\<close>

theorem load_then_save_canonical:
  assumes content: "files w path = Some (save_text ds format)"
    and rec: "format = Ndjson \<longrightarrow> (\<forall>d\<in>set ds. \<exists>kvs. d = JObj kvs)"
    and nolf: "format = Ndjson \<longrightarrow> (\<forall>d\<in>set ds. CHR 0x0A \<notin> set (JSON_stringify d))"
    and inv: "format = Ndjson \<longrightarrow> (\<forall>d\<in>set ds. JSON_parse R (JSON_stringify d) = Inr d)"
    and inv_arr: "format = Array \<longrightarrow> JSON_parse R (JSON_stringify (JArr ds)) = Inr (JArr ds)"
  shows "loadPackDocs R w path = Inr (ds, format)
         \<and> (case loadPackDocs R w path of
               Inr (ds', format') \<Rightarrow> files (savePackDocs w path ds' format') = files w
             | Inl e \<Rightarrow> False)"
proof -
  from load_save_canonical [OF rec nolf inv inv_arr, of path]
  have "load_text R path (save_text ds format) = Inr (ds, format)"
    by simp
  with content have "loadPackDocs R w path = Inr (ds, format)"
    by (simp add: loadPackDocs_def readFile_def)
  moreover from content have "files (savePackDocs w path ds format) = files w"
    by (auto simp: savePackDocs_def writeFile_def)
  ultimately show ?thesis by simp
qed

theorem load_then_save_canonical_witness:
  "loadPackDocs example_runtime (fresh_world canonical_pack) ''/repo/packs/items.db''
     = Inr ([sword], Ndjson)
   \<and> files (savePackDocs (fresh_world canonical_pack) ''/repo/packs/items.db'' [sword] Ndjson)
     = files (fresh_world canonical_pack)
   \<and> loadPackDocs example_runtime (fresh_world array_pack) ''/repo/packs/items.db''
     = Inr ([sword], Array)
   \<and> files (savePackDocs (fresh_world array_pack) ''/repo/packs/items.db'' [sword] Array)
     = files (fresh_world array_pack)"
proof -
  let ?p = "''/repo/packs/items.db''"
  have text_n: "save_text [sword] Ndjson = canonical_pack"
    unfolding sword_def canonical_pack_def by code_simp
  have text_a: "save_text [sword] Array = array_pack"
    unfolding sword_def array_pack_def by code_simp
  have 1: "files (fresh_world canonical_pack) ?p = Some (save_text [sword] Ndjson)"
    by (simp add: fresh_world_def text_n)
  have 2: "Ndjson = Ndjson \<longrightarrow> (\<forall>d\<in>set [sword]. \<exists>kvs. d = JObj kvs)"
    by (simp add: sword_def)
  have 3: "Ndjson = Ndjson \<longrightarrow> (\<forall>d\<in>set [sword]. CHR 0x0A \<notin> set (JSON_stringify d))"
    by (simp add: sword_def json_quote_def json_escape_char_def)
  have 4: "Ndjson = Ndjson \<longrightarrow>
      (\<forall>d\<in>set [sword]. JSON_parse example_runtime (JSON_stringify d) = Inr d)"
    by (simp add: sword_def json_quote_def json_escape_char_def example_runtime_def example_parse_def)
  have 5: "Ndjson = Array \<longrightarrow>
      JSON_parse example_runtime (JSON_stringify (JArr [sword])) = Inr (JArr [sword])"
    by simp
  have a1: "files (fresh_world array_pack) ?p = Some (save_text [sword] Array)"
    by (simp add: fresh_world_def text_a)
  have a2: "Array = Ndjson \<longrightarrow> (\<forall>d\<in>set [sword]. \<exists>kvs. d = JObj kvs)"
    by simp
  have a3: "Array = Ndjson \<longrightarrow> (\<forall>d\<in>set [sword]. CHR 0x0A \<notin> set (JSON_stringify d))"
    by simp
  have a4: "Array = Ndjson \<longrightarrow>
      (\<forall>d\<in>set [sword]. JSON_parse example_runtime (JSON_stringify d) = Inr d)"
    by simp
  have a5: "Array = Array \<longrightarrow>
      JSON_parse example_runtime (JSON_stringify (JArr [sword])) = Inr (JArr [sword])"
    by (simp add: sword_def json_quote_def json_escape_char_def example_runtime_def example_parse_def)
  note n = load_then_save_canonical [OF 1 2 3 4 5]
  note a = load_then_save_canonical [OF a1 a2 a3 a4 a5]
  from n have n1: "loadPackDocs example_runtime (fresh_world canonical_pack) ?p = Inr ([sword], Ndjson)"
    by (rule conjunct1)
  from a have a1: "loadPackDocs example_runtime (fresh_world array_pack) ?p = Inr ([sword], Array)"
    by (rule conjunct1)
  from n have "files (savePackDocs (fresh_world canonical_pack) ?p [sword] Ndjson)
     = files (fresh_world canonical_pack)"
    unfolding n1 by simp
  moreover from a have "files (savePackDocs (fresh_world array_pack) ?p [sword] Array)
     = files (fresh_world array_pack)"
    unfolding a1 by simp
  ultimately show ?thesis
    using n1 a1 by simp
qed

text \<open>
  C1 as stated fails: a line-delimited file with a space after the colon is loaded, and
  saving the unmodified record writes the compact text, which differs from the file.
\<close>

theorem spaced_pack_counterexample:
  "files (fresh_world spaced_pack) ''/repo/packs/items.db'' = Some spaced_pack
   \<and> loadPackDocs example_runtime (fresh_world spaced_pack) ''/repo/packs/items.db''
       = Inr ([sword], Ndjson)
   \<and> files (savePackDocs (fresh_world spaced_pack) ''/repo/packs/items.db'' [sword] Ndjson)
         ''/repo/packs/items.db'' = Some canonical_pack
   \<and> canonical_pack \<noteq> spaced_pack"
  unfolding sword_def by code_simp

text \<open>
  The number in the error of the loader is the position of the first line that does not
  parse among the lines that are left after blank lines are dropped.
\<close>

lemma parse_lines_first_failure:
  "parse_lines R f idx ls = Inl e \<longleftrightarrow>
     (\<exists>k msg. k < length ls \<and> JSON_parse R (ls ! k) = Inl msg
        \<and> (\<forall>j<k. \<exists>d. JSON_parse R (ls ! j) = Inr d)
        \<and> e = PackParseFailed f (idx + k + 1) msg)"
proof (induction ls arbitrary: idx)
  case Nil
  then show ?case by simp
next
  case (Cons l ls)
  show ?case
  proof (cases "JSON_parse R l")
    case (Inl msg)
    have "(\<exists>k msg. k < length (l # ls) \<and> JSON_parse R ((l # ls) ! k) = Inl msg
        \<and> (\<forall>j<k. \<exists>d. JSON_parse R ((l # ls) ! j) = Inr d)
        \<and> e = PackParseFailed f (idx + k + 1) msg) \<longleftrightarrow> e = PackParseFailed f (idx + 1) msg"
    proof
      assume "\<exists>k msg. k < length (l # ls) \<and> JSON_parse R ((l # ls) ! k) = Inl msg
        \<and> (\<forall>j<k. \<exists>d. JSON_parse R ((l # ls) ! j) = Inr d)
        \<and> e = PackParseFailed f (idx + k + 1) msg"
      then obtain k m where k: "k < length (l # ls)" "JSON_parse R ((l # ls) ! k) = Inl m"
        "\<forall>j<k. \<exists>d. JSON_parse R ((l # ls) ! j) = Inr d" "e = PackParseFailed f (idx + k + 1) m"
        by blast
      have "k = 0"
      proof (rule ccontr)
        assume "k \<noteq> 0"
        then have "0 < k" by simp
        with k(3) obtain d where "JSON_parse R ((l # ls) ! 0) = Inr d" by blast
        with Inl show False by simp
      qed
      with k Inl show "e = PackParseFailed f (idx + 1) msg" by simp
    next
      assume "e = PackParseFailed f (idx + 1) msg"
      with Inl show "\<exists>k msg. k < length (l # ls) \<and> JSON_parse R ((l # ls) ! k) = Inl msg
        \<and> (\<forall>j<k. \<exists>d. JSON_parse R ((l # ls) ! j) = Inr d)
        \<and> e = PackParseFailed f (idx + k + 1) msg"
        by (intro exI[of _ 0] exI[of _ msg]) simp
    qed
    with Inl show ?thesis by auto
  next
    case (Inr d)
    have "(\<exists>k msg. k < length (l # ls) \<and> JSON_parse R ((l # ls) ! k) = Inl msg
        \<and> (\<forall>j<k. \<exists>d. JSON_parse R ((l # ls) ! j) = Inr d)
        \<and> e = PackParseFailed f (idx + k + 1) msg) \<longleftrightarrow>
       (\<exists>k msg. k < length ls \<and> JSON_parse R (ls ! k) = Inl msg
        \<and> (\<forall>j<k. \<exists>d. JSON_parse R (ls ! j) = Inr d)
        \<and> e = PackParseFailed f (idx + 1 + k + 1) msg)" (is "?L \<longleftrightarrow> ?R")
    proof
      assume ?L
      then obtain k m where k: "k < length (l # ls)" "JSON_parse R ((l # ls) ! k) = Inl m"
        "\<forall>j<k. \<exists>d. JSON_parse R ((l # ls) ! j) = Inr d" "e = PackParseFailed f (idx + k + 1) m"
        by blast
      from k(2) Inr obtain k' where k': "k = Suc k'"
        by (cases k) auto
      from k(3) k' have "\<forall>j<k'. \<exists>d. JSON_parse R (ls ! j) = Inr d"
        by (metis Suc_less_eq nth_Cons_Suc)
      with k k' show ?R
        by (intro exI[of _ k'] exI[of _ m]) simp
    next
      assume ?R
      then obtain k m where k: "k < length ls" "JSON_parse R (ls ! k) = Inl m"
        "\<forall>j<k. \<exists>d. JSON_parse R (ls ! j) = Inr d" "e = PackParseFailed f (idx + 1 + k + 1) m"
        by blast
      have "\<forall>j<Suc k. \<exists>d. JSON_parse R ((l # ls) ! j) = Inr d"
        using k(3) Inr by (auto simp: nth_Cons split: nat.splits)
      with k show ?L
        by (intro exI[of _ "Suc k"] exI[of _ m]) simp
    qed
    moreover have "parse_lines R f idx (l # ls) = Inl e \<longleftrightarrow> parse_lines R f (idx + 1) ls = Inl e"
      using Inr by (auto split: sum.splits)
    ultimately show ?thesis
      using Cons.IH [of "idx + 1"] by simp
  qed
qed

text \<open>
  C5. The specification asks for the line number in the file. In a pack whose line 2 is blank and
  whose line 3 is not JSON, the error names \<open>items.db\<close> and line 2: the index is taken
  after the blank lines have been filtered out.
\<close>

theorem blank_line_shifts_line_number:
  "load_text example_runtime ''/repo/packs/items.db'' blank_line_pack
     = Inl (PackParseFailed ''items.db'' 2 ''Unexpected token'')
   \<and> split_lines blank_line_pack = [''{}'', [], ''{bad'', []]
   \<and> JSON_parse example_runtime ''{}'' = Inr (JObj [])
   \<and> JSON_parse example_runtime ''{bad'' = Inl ''Unexpected token''"
  by (simp add: load_text_def blank_line_pack_def trim_def is_space_def basename_def
      example_runtime_def example_parse_def)


section \<open>Properties of the orchestration driver\<close>

lemma files_ensureDir [simp]: "files (ensureDir w p) = files w"
  by (simp add: ensureDir_def mkdir_recursive_def)

lemma requests_ensureDir [simp]: "requests (ensureDir w p) = requests w"
  by (simp add: ensureDir_def mkdir_recursive_def)

lemma exists_ensureDir: "files w p = Some c \<Longrightarrow> exists (ensureDir w q) p"
  by (simp add: exists_def)

text \<open>
  C3. When the record's \<open>img\<close> is the target path, the target file exists and the
  overwrite flag is unset, the pass of the loop for that record posts no request, leaves
  the records and every file as they are, and only counts the record as processed.
\<close>

theorem already_ok_skipped:
  assumes likely: "isLikelyDoc (docs st ! i)"
    and name: "stableIconFileName R (randomUUID R i) (docs st ! i) = Inr fileName"
    and kind: "kind = (if isSpell (docs st ! i) then ''spells'' else ''items'')"
    and img: "get_prop (docs st ! i) ''img'' = Some (JStr (foundryImgPath moduleId kind fileName))"
    and icon: "files (disk st) (localIconPath C kind fileName) = Some png"
    and overwrite: "\<not> OVERWRITE C"
  shows "\<exists>st'. loop_body R C moduleId i st = (st', None)
           \<and> requests (disk st') = requests (disk st)
           \<and> docs st' = docs st
           \<and> files (disk st') = files (disk st)
           \<and> processed st' = processed st + 1
           \<and> changed st' = changed st"
  using assms by (simp add: loop_body_def Let_def exists_ensureDir)
theorem already_ok_skipped_witness:
  "loop_body example_runtime example_config ''my-module'' 0 done_state
     = (done_state\<lparr>processed := 1\<rparr>, None)"
proof -
  have 1: "isLikelyDoc (docs done_state ! 0)"
    by code_simp
  have 2: "stableIconFileName example_runtime (randomUUID example_runtime 0) (docs done_state ! 0)
             = Inr ''sword-4a126f43.png''"
    by code_simp
  have 3: "''items'' = (if isSpell (docs done_state ! 0) then ''spells'' else ''items'')"
    by code_simp
  have 4: "get_prop (docs done_state ! 0) ''img''
             = Some (JStr (foundryImgPath ''my-module'' ''items'' ''sword-4a126f43.png''))"
    by code_simp
  have 5: "files (disk done_state) (localIconPath example_config ''items'' ''sword-4a126f43.png'')
             = Some ''A''"
    by (simp add: done_state_def localIconPath_def example_config_def)
  have 6: "\<not> OVERWRITE example_config"
    by (simp add: example_config_def)
  from already_ok_skipped [OF 1 2 3 4 5 6]
  obtain st' where st': "loop_body example_runtime example_config ''my-module'' 0 done_state = (st', None)"
    "requests (disk st') = requests (disk done_state)" "docs st' = docs done_state"
    "files (disk st') = files (disk done_state)" "processed st' = processed done_state + 1"
    "changed st' = changed done_state"
    by blast
  have "dirs (disk st') = dirs (disk done_state)"
    using st'(1) 1 2 3 4 5 6
    by (auto simp: loop_body_def Let_def ensureDir_def exists_def dirname_def localIconPath_def
        example_config_def done_state_def split: if_splits)
  with st' have "st' = done_state\<lparr>processed := 1\<rparr>"
    by (simp add: done_state_def)
  with st'(1) show ?thesis by simp
qed








text \<open>With the dry-run flag set, a run changes no file and posts no request.\<close>

lemma loop_body_dry:
  assumes "DRYRUN C" "loop_body R C moduleId i st = (st', r)"
  shows "files (disk st') = files (disk st) \<and> requests (disk st') = requests (disk st)
         \<and> docs st' = docs st \<and> changed st' = changed st"
  using assms by (auto simp: loop_body_def Let_def split: if_splits sum.splits)

lemma driver_loop_dry:
  "DRYRUN C \<Longrightarrow> driver_loop R C moduleId i st = (st', r) \<Longrightarrow>
     files (disk st') = files (disk st) \<and> requests (disk st') = requests (disk st)
     \<and> docs st' = docs st \<and> changed st' = changed st"
proof (induction R C moduleId i st rule: driver_loop.induct)
  case (1 R C moduleId i st)
  show ?case
  proof (cases "i < length (docs st) \<and> \<not> limit_reached C (processed st)")
    case False
    with "1.prems" show ?thesis
      by (auto simp: driver_loop.simps [of R C moduleId i st] split: if_splits)
  next
    case True
    obtain st1 x where body: "loop_body R C moduleId i st = (st1, x)"
      by (cases "loop_body R C moduleId i st")
    note b = loop_body_dry [OF "1.prems"(1) body]
    show ?thesis
    proof (cases x)
      case (Some e)
      with True body "1.prems" have "st' = st1"
        by (simp add: driver_loop.simps [of R C moduleId i st])
      with b show ?thesis by simp
    next
      case None
      with True body "1.prems" have "driver_loop R C moduleId (i + 1) st1 = (st', r)"
        by (simp add: driver_loop.simps [of R C moduleId i st])
      with "1.IH" True body None "1.prems"(1)
      have "files (disk st') = files (disk st1) \<and> requests (disk st') = requests (disk st1)
         \<and> docs st' = docs st1 \<and> changed st' = changed st1"
        by simp
      with b show ?thesis by simp
    qed
  qed
qed

lemma processPackFile_dry:
  assumes "DRYRUN C" "processPackFile R C moduleId w p = (w', r)"
  shows "files w' = files w \<and> requests w' = requests w"
proof (cases "loadPackDocs R w p")
  case (Inl e)
  with assms show ?thesis
    by (simp add: processPackFile_def)
next
  case (Inr a)
  obtain ds fmt where a: "a = (ds, fmt)"
    by (cases a)
  obtain st x where loop:
    "driver_loop R C moduleId 0 \<lparr>disk = w, docs = ds, processed = 0, changed = 0\<rparr> = (st, x)"
    by (cases "driver_loop R C moduleId 0 \<lparr>disk = w, docs = ds, processed = 0, changed = 0\<rparr>")
  from driver_loop_dry [OF assms(1) loop]
  have "files (disk st) = files w \<and> requests (disk st) = requests w"
    by simp
  moreover from assms Inr a loop have "w' = disk st"
    by (cases x) (simp_all add: processPackFile_def)
  ultimately show ?thesis by simp
qed

lemma run_packs_dry:
  "DRYRUN C \<Longrightarrow> run_packs R C moduleId w pfs = (w', r) \<Longrightarrow>
     files w' = files w \<and> requests w' = requests w"
proof (induction pfs arbitrary: w)
  case Nil
  then show ?case by simp
next
  case (Cons pf pfs)
  obtain w1 x where p: "processPackFile R C moduleId w pf = (w1, x)"
    by (cases "processPackFile R C moduleId w pf")
  note d = processPackFile_dry [OF Cons.prems(1) p]
  show ?case
  proof (cases x)
    case (Inl e)
    with p Cons.prems have "w' = w1" by simp
    with d show ?thesis by simp
  next
    case (Inr res)
    with p Cons.prems have "run_packs R C moduleId w1 pfs = (w', r)" by simp
    from Cons.IH [OF Cons.prems(1) this] d show ?thesis by simp
  qed
qed

text \<open>
  C4. The specification asks that a dry run creates no directory either. On a repository without
  an \<open>icons\<close> directory, a dry run over one pack with one record creates
  \<open>icons/generated/items\<close>: \<open>ensureDir\<close> is called before the dry-run flag is looked at.
  No file is written and no request is posted.
\<close>

theorem dry_run_creates_directory:
  "DRYRUN dryrun_config
   \<and> ''/repo/icons/generated/items'' \<notin> dirs (fresh_world canonical_pack)
   \<and> (case run_packs example_runtime dryrun_config ''my-module'' (fresh_world canonical_pack)
             [''/repo/packs/items.db''] of
         (w', err) \<Rightarrow> err = None
            \<and> ''/repo/icons/generated/items'' \<in> dirs w'
            \<and> dirs w' \<noteq> dirs (fresh_world canonical_pack)
            \<and> files w' = files (fresh_world canonical_pack)
            \<and> requests w' = [])"
proof -
  obtain w' err where run: "run_packs example_runtime dryrun_config ''my-module''
      (fresh_world canonical_pack) [''/repo/packs/items.db''] = (w', err)"
    by (cases "run_packs example_runtime dryrun_config ''my-module''
      (fresh_world canonical_pack) [''/repo/packs/items.db'']")
  have dry: "DRYRUN dryrun_config"
    by (simp add: dryrun_config_def)
  have before: "''/repo/icons/generated/items'' \<notin> dirs (fresh_world canonical_pack)"
    by (simp add: fresh_world_def)
  have "case run_packs example_runtime dryrun_config ''my-module'' (fresh_world canonical_pack)
             [''/repo/packs/items.db''] of
         (w', err) \<Rightarrow> err = None \<and> ''/repo/icons/generated/items'' \<in> dirs w'"
    by code_simp
  with run have after: "err = None" "''/repo/icons/generated/items'' \<in> dirs w'"
    by simp_all
  from run_packs_dry [OF dry run] have "files w' = files (fresh_world canonical_pack)"
    "requests w' = []"
    by (simp_all add: fresh_world_def)
  with run dry before after show ?thesis
    by auto
qed


end
